theory Spec2Isabelle
  imports Complex_Main "HOL-Library.Char_ord" "HOL-Library.List_Lexorder"
    "HOL-Library.Option_ord" "HOL-Library.AList" "HOL-Library.Multiset"
    "HOL-Library.Code_Target_Nat"
begin

section \<open>Constants of app.py\<close>

definition MAX_REPOS :: nat where "MAX_REPOS = 5"
definition MAX_EVENTS :: nat where "MAX_EVENTS = 500"
definition MAX_DAYS :: nat where "MAX_DAYS = 7"

section \<open>Values, exceptions and the events table\<close>

text \<open>
  What \<open>json.load\<close> and \<open>response.json()\<close> hand to the program. A JSON object is the list
  of the items of the resulting dict (each key once). Numbers are the integral ones;
  fractional numbers play no part in the three fields the program reads.
\<close>

datatype json =
    JNull
  | JBool bool
  | JNum int
  | JStr string
  | JArr "json list"
  | JObj "(string \<times> json) list"

type_synonym event = "(string \<times> json) list"

text \<open>
  The exceptions that occur. Every \<open>sqlite_error\<close> is a subclass of
  \<open>sqlite3.DatabaseError\<close>, which is what the handlers of \<open>insert_event\<close> catch.
\<close>

datatype sqlite_error = IntegrityError | OperationalError | ProgrammingError | DatabaseError

datatype py_exn =
    AttributeError
  | TypeError
  | ValueError
  | OverflowError
  | SqliteError sqlite_error

text \<open>
  A row of the table \<open>events\<close> created by \<open>init_db\<close>, with its columns in order. All five columns have TEXT affinity
  and all are nullable, the primary key \<open>id\<close> included (an ordinary rowid table).
  The column \<open>raw_json\<close> holds \<open>json.dumps(event)\<close>; it is represented by the value that
  text serialises, since the program never reads it back.
  The table is the list of its rows in rowid order, that is in order of insertion.
\<close>

datatype row =
  Row (row_id: "string option") (row_repo: string) (row_event_type: "string option")
    (row_created_at: "string option") (row_raw_json: json)

section \<open>Rendering numbers\<close>

definition digit_char :: "nat \<Rightarrow> char" where
  "digit_char d = ''0123456789'' ! (d mod 10)"

fun str_nat :: "nat \<Rightarrow> string" where
  "str_nat n = (if n < 10 then [digit_char n] else str_nat (n div 10) @ [digit_char (n mod 10)])"

definition str_int :: "int \<Rightarrow> string" where
  "str_int i = (if i < 0 then CHR ''-'' # str_nat (nat (- i)) else str_nat (nat i))"

section \<open>insert_event\<close>

text \<open>
  \<open>event.get(k)\<close>: the value under the key, Python's \<open>None\<close> when the key is missing.
\<close>

definition dict_get :: "event \<Rightarrow> string \<Rightarrow> json option" where
  "dict_get event k = map_of event k"

text \<open>
  Binding one value as a parameter of the INSERT, and storing it in a TEXT column.
  \<open>None\<close> becomes NULL, a string is stored as it is, an integer (a bool is one) is bound as
  a 64-bit INTEGER and stored as its decimal text; an integer outside 64 bits raises
  \<open>OverflowError\<close>, a list or a dict raises \<open>sqlite3.ProgrammingError\<close>.
\<close>

fun bind_text :: "json option \<Rightarrow> py_exn + string option" where
  "bind_text None = Inr None"
| "bind_text (Some JNull) = Inr None"
| "bind_text (Some (JBool b)) = Inr (Some (if b then ''1'' else ''0''))"
| "bind_text (Some (JNum n)) =
     (if - (2 ^ 63) \<le> n \<and> n < 2 ^ 63 then Inr (Some (str_int n)) else Inl OverflowError)"
| "bind_text (Some (JStr s)) = Inr (Some s)"
| "bind_text (Some (JArr xs)) = Inl (SqliteError ProgrammingError)"
| "bind_text (Some (JObj kvs)) = Inl (SqliteError ProgrammingError)"

text \<open>
  The parameter tuple of the INSERT, bound left to right: the first parameter that cannot
  be bound decides the exception.
\<close>

definition make_row :: "event \<Rightarrow> string \<Rightarrow> py_exn + row" where
  "make_row event repo =
     (case bind_text (dict_get event ''id'') of
        Inl e \<Rightarrow> Inl e
      | Inr i \<Rightarrow>
          (case bind_text (dict_get event ''type'') of
             Inl e \<Rightarrow> Inl e
           | Inr t \<Rightarrow>
               (case bind_text (dict_get event ''created_at'') of
                  Inl e \<Rightarrow> Inl e
                | Inr c \<Rightarrow>
                    Inr (Row i repo t c (JObj event)))))"

text \<open>
  \<open>INSERT OR IGNORE\<close>: a row whose key is already in the table is dropped without any
  error. NULL keys never conflict, neither with each other nor with any text.
\<close>

definition sql_insert_or_ignore :: "row \<Rightarrow> row list \<Rightarrow> row list" where
  "sql_insert_or_ignore r db =
     (if row_id r \<noteq> None \<and> row_id r \<in> set (map row_id db) then db else db @ [r])"

text \<open>
  \<open>insert_event\<close> returns the exception that escapes it, if any, and the table it leaves.
  The three handlers for sqlite3 errors log and return; any other exception escapes.
\<close>

definition insert_event :: "event \<Rightarrow> string \<Rightarrow> row list \<Rightarrow> py_exn option \<times> row list" where
  "insert_event event repo db =
     (case make_row event repo of
        Inl (SqliteError e) \<Rightarrow> (None, db)
      | Inl e \<Rightarrow> (Some e, db)
      | Inr r \<Rightarrow> (None, sql_insert_or_ignore r db))"

text \<open>
  A sequence of calls of \<open>insert_event\<close>, each on the table the previous one left.
\<close>

definition insert_many :: "(event \<times> string) list \<Rightarrow> row list \<Rightarrow> row list" where
  "insert_many calls db = foldl (\<lambda>d (e, r). snd (insert_event e r d)) db calls"

text \<open>The rows of those calls whose parameters could all be bound, in call order.\<close>

definition bound_rows :: "(event \<times> string) list \<Rightarrow> row list" where
  "bound_rows calls =
     concat (map (\<lambda>(e, r). case make_row e r of Inl x \<Rightarrow> [] | Inr w \<Rightarrow> [w]) calls)"

definition first_with_id :: "string \<Rightarrow> row list \<Rightarrow> row option" where
  "first_with_id i rows = find (\<lambda>w. row_id w = Some i) rows"

definition rows_with_id :: "string \<Rightarrow> row list \<Rightarrow> row list" where
  "rows_with_id i rows = filter (\<lambda>w. row_id w = Some i) rows"

section \<open>load_config\<close>

text \<open>
  What opening and parsing \<open>config.json\<close> yields: the file is missing, it is not JSON, or
  it holds a JSON value.
\<close>

datatype config_file = FileNotFound | InvalidJson | Parsed json

text \<open>
  \<open>load_config\<close> returns the value of \<open>repos\<close>. \<open>config.get\<close> needs a dict; \<open>len\<close> needs a
  list, a string or a dict; the slice \<open>repos[:MAX_REPOS]\<close> of a dict raises \<open>TypeError\<close>.
  Neither of the two handlers catches these.
\<close>

definition load_config :: "config_file \<Rightarrow> py_exn + json" where
  "load_config f =
     (case f of
        FileNotFound \<Rightarrow> Inr (JArr [])
      | InvalidJson \<Rightarrow> Inr (JArr [])
      | Parsed (JObj config) \<Rightarrow>
          (case (case map_of config ''repositories'' of None \<Rightarrow> JArr [] | Some v \<Rightarrow> v) of
             JArr repos \<Rightarrow>
               Inr (JArr (if length repos > MAX_REPOS then take MAX_REPOS repos else repos))
           | JStr repos \<Rightarrow>
               Inr (JStr (if length repos > MAX_REPOS then take MAX_REPOS repos else repos))
           | JObj repos \<Rightarrow>
               (if length repos > MAX_REPOS then Inl TypeError else Inr (JObj repos))
           | _ \<Rightarrow> Inl TypeError)
      | Parsed _ \<Rightarrow> Inl AttributeError)"

section \<open>Dates and times\<close>

text \<open>
  A \<open>datetime.datetime\<close> by its fields, and the calendar arithmetic of the standard library:
  the proleptic Gregorian ordinal of a date, the difference of two datetimes as a number of
  microseconds, \<open>total_seconds()\<close> of that difference as an exact rational (floating point
  rounding is not modelled).
\<close>

datatype datetime =
  Datetime (dt_year: nat) (dt_month: nat) (dt_day: nat)
    (dt_hour: nat) (dt_minute: nat) (dt_second: nat) (dt_microsecond: nat)

definition is_leap :: "nat \<Rightarrow> bool" where
  "is_leap y \<longleftrightarrow> y mod 4 = 0 \<and> (y mod 100 \<noteq> 0 \<or> y mod 400 = 0)"

definition days_in_month :: "nat \<Rightarrow> nat \<Rightarrow> nat" where
  "days_in_month y m =
     (if m = 2 \<and> is_leap y then 29
      else [31, 28, 31, 30, 31, 30, 31, 31, 30, 31, 30, 31] ! (m - 1))"

definition days_before_year :: "nat \<Rightarrow> nat" where
  "days_before_year y = (y - 1) * 365 + (y - 1) div 4 - (y - 1) div 100 + (y - 1) div 400"

definition days_before_month :: "nat \<Rightarrow> nat \<Rightarrow> nat" where
  "days_before_month y m =
     [0, 31, 59, 90, 120, 151, 181, 212, 243, 273, 304, 334] ! (m - 1)
       + (if m > 2 \<and> is_leap y then 1 else 0)"

definition ymd2ord :: "nat \<Rightarrow> nat \<Rightarrow> nat \<Rightarrow> nat" where
  "ymd2ord y m d = days_before_year y + days_before_month y m + d"

definition valid_datetime :: "datetime \<Rightarrow> bool" where
  "valid_datetime d \<longleftrightarrow>
     1 \<le> dt_year d \<and> dt_year d \<le> 9999 \<and> 1 \<le> dt_month d \<and> dt_month d \<le> 12 \<and>
     1 \<le> dt_day d \<and> dt_day d \<le> days_in_month (dt_year d) (dt_month d) \<and>
     dt_hour d \<le> 23 \<and> dt_minute d \<le> 59 \<and> dt_second d \<le> 59 \<and> dt_microsecond d \<le> 999999"

definition to_microseconds :: "datetime \<Rightarrow> int" where
  "to_microseconds d =
     ((int (ymd2ord (dt_year d) (dt_month d) (dt_day d)) * 86400
        + int (dt_hour d) * 3600 + int (dt_minute d) * 60 + int (dt_second d)) * 1000000)
      + int (dt_microsecond d)"

text \<open>\<open>(a - b).total_seconds()\<close>\<close>

definition seconds_between :: "datetime \<Rightarrow> datetime \<Rightarrow> rat" where
  "seconds_between a b = of_int (to_microseconds a - to_microseconds b) / 1000000"

text \<open>\<open>d - datetime.timedelta(days=n)\<close>, one calendar day at a time.\<close>

fun prev_day :: "datetime \<Rightarrow> datetime" where
  "prev_day (Datetime y m d h mi s us) =
     (if d > 1 then Datetime y m (d - 1) h mi s us
      else if m > 1 then Datetime y (m - 1) (days_in_month y (m - 1)) h mi s us
      else Datetime (y - 1) 12 31 h mi s us)"

primrec minus_days :: "datetime \<Rightarrow> nat \<Rightarrow> datetime" where
  "minus_days d 0 = d"
| "minus_days d (Suc n) = minus_days (prev_day d) n"

text \<open>
  \<open>isoformat()\<close> of a datetime that carries the time zone UTC, as
  \<open>datetime.datetime.now(datetime.UTC)\<close> does: the fraction is printed when it is not zero,
  and the offset \<open>+00:00\<close> always.
\<close>

definition pad :: "nat \<Rightarrow> nat \<Rightarrow> string" where
  "pad w n = replicate (w - length (str_nat n)) (CHR ''0'') @ str_nat n"

definition isoformat_utc :: "datetime \<Rightarrow> string" where
  "isoformat_utc d =
     pad 4 (dt_year d) @ ''-'' @ pad 2 (dt_month d) @ ''-'' @ pad 2 (dt_day d) @ ''T'' @
     pad 2 (dt_hour d) @ '':'' @ pad 2 (dt_minute d) @ '':'' @ pad 2 (dt_second d) @
     (if dt_microsecond d \<noteq> 0 then ''.'' @ pad 6 (dt_microsecond d) else []) @ ''+00:00''"

text \<open>
  \<open>datetime.datetime.fromisoformat\<close> on the layouts \<open>YYYY-MM-DDTHH:MM:SS\<close> and
  \<open>YYYY-MM-DDTHH:MM:SS.f\<close> with one to six digits of fraction, which are what the feed and
  the test suite store once the letter Z is removed. On these it computes what Python
  computes, the range checks included. Every other text is reported as \<open>ValueError\<close>;
  Python 3.11 reads some of those as well, so the theorems that depend on parsing are
  stated for windows that this function reads.
\<close>

definition digit_val :: "char \<Rightarrow> nat option" where
  "digit_val c = (if CHR ''0'' \<le> c \<and> c \<le> CHR ''9'' then Some (of_char c - 48) else None)"

fun digits_acc :: "nat \<Rightarrow> string \<Rightarrow> nat option" where
  "digits_acc acc [] = Some acc"
| "digits_acc acc (c # cs) =
     (case digit_val c of None \<Rightarrow> None | Some v \<Rightarrow> digits_acc (10 * acc + v) cs)"

definition digits_val :: "string \<Rightarrow> nat option" where
  "digits_val s = (if s = [] then None else digits_acc 0 s)"

definition fraction_val :: "string \<Rightarrow> nat option" where
  "fraction_val s =
     (case s of
        [] \<Rightarrow> Some 0
      | c # ds \<Rightarrow>
          (if c = CHR ''.'' \<and> 1 \<le> length ds \<and> length ds \<le> 6
           then map_option (\<lambda>v. v * 10 ^ (6 - length ds)) (digits_val ds)
           else None))"

definition fromisoformat :: "string \<Rightarrow> py_exn + datetime" where
  "fromisoformat s =
     (if 19 \<le> length s \<and> s ! 4 = CHR ''-'' \<and> s ! 7 = CHR ''-'' \<and> s ! 10 = CHR ''T''
         \<and> s ! 13 = CHR '':'' \<and> s ! 16 = CHR '':''
      then
        (case (digits_val (take 4 s), digits_val (take 2 (drop 5 s)),
               digits_val (take 2 (drop 8 s)), digits_val (take 2 (drop 11 s)),
               digits_val (take 2 (drop 14 s)), digits_val (take 2 (drop 17 s)),
               fraction_val (drop 19 s)) of
           (Some y, Some m, Some d, Some h, Some mi, Some sec, Some us) \<Rightarrow>
             (let t = Datetime y m d h mi sec us
              in if valid_datetime t then Inr t else Inl ValueError)
         | _ \<Rightarrow> Inl ValueError)
      else Inl ValueError)"

text \<open>\<open>row[0].replace("Z", "")\<close> and the list comprehension of \<open>get_recent_events\<close>.\<close>

definition remove_Z :: "string \<Rightarrow> string" where
  "remove_Z s = filter (\<lambda>c. c \<noteq> CHR ''Z'') s"

fun parse_rows :: "string list \<Rightarrow> py_exn + datetime list" where
  "parse_rows [] = Inr []"
| "parse_rows (c # cs) =
     (case fromisoformat (remove_Z c) of
        Inl e \<Rightarrow> Inl e
      | Inr d \<Rightarrow> (case parse_rows cs of Inl e \<Rightarrow> Inl e | Inr ds \<Rightarrow> Inr (d # ds)))"

section \<open>The two queries\<close>

text \<open>
  The cutoff both queries are given: \<open>(now - timedelta(days=MAX_DAYS)).isoformat() + "Z"\<close>.
\<close>

definition cutoff_text :: "datetime \<Rightarrow> string" where
  "cutoff_text now = isoformat_utc (minus_days now MAX_DAYS) @ ''Z''"

text \<open>
  \<open>created_at >= ?\<close> compares two texts byte by byte, which is the lexicographic order of
  strings; a NULL \<open>created_at\<close> never satisfies it.
\<close>

definition not_before :: "string \<Rightarrow> row \<Rightarrow> bool" where
  "not_before cutoff r = (case row_created_at r of None \<Rightarrow> False | Some c \<Rightarrow> cutoff \<le> c)"

text \<open>
  \<open>WHERE repo = ? AND event_type = ? AND created_at >= ?\<close>. The event type asked for is
  NULL when \<open>get_stats\<close> passes on a pair it found with a NULL type; \<open>event_type = NULL\<close>
  holds of no row.
\<close>

definition window_row :: "string \<Rightarrow> string option \<Rightarrow> string \<Rightarrow> row \<Rightarrow> bool" where
  "window_row repo event_type cutoff r \<longleftrightarrow>
     row_repo r = repo \<and> event_type \<noteq> None \<and> row_event_type r = event_type \<and> not_before cutoff r"

definition created_at_column :: "row list \<Rightarrow> string list" where
  "created_at_column rs =
     concat (map (\<lambda>r. case row_created_at r of None \<Rightarrow> [] | Some c \<Rightarrow> [c]) rs)"

text \<open>
  \<open>ORDER BY datetime(created_at) ASC\<close>. The SQL function \<open>datetime\<close> belongs to the database
  engine, not to this program, and is a parameter \<open>sql_dt\<close> of the model: it maps a text to
  a text or to NULL. NULL sorts first, texts sort byte by byte, and rows with equal keys stay
  in insertion order.
\<close>

definition sql_select_created_at ::
  "(string \<Rightarrow> string option) \<Rightarrow> row list \<Rightarrow> string \<Rightarrow> string option \<Rightarrow> string \<Rightarrow> string list" where
  "sql_select_created_at sql_dt db repo event_type cutoff =
     sort_key sql_dt (created_at_column (filter (window_row repo event_type cutoff) db))"

text \<open>\<open>SELECT DISTINCT repo, event_type FROM events WHERE created_at >= ?\<close>\<close>

definition sql_select_distinct_pairs :: "row list \<Rightarrow> string \<Rightarrow> (string \<times> string option) list" where
  "sql_select_distinct_pairs db cutoff =
     remdups (map (\<lambda>r. (row_repo r, row_event_type r)) (filter (not_before cutoff) db))"

text \<open>
  The read statements one request for \<open>/stats\<close> executes, each on a connection of its own.
  The caller supplies, per statement, the clock reading its cutoff is computed from and the
  error the storage layer raises on it, if any.
\<close>

datatype statement = PairsQuery | WindowQuery string "string option"

section \<open>get_recent_events\<close>

definition get_recent_events ::
  "(string \<Rightarrow> string option) \<Rightarrow> sqlite_error option \<Rightarrow> datetime \<Rightarrow> row list
     \<Rightarrow> string \<Rightarrow> string option \<Rightarrow> py_exn + datetime list" where
  "get_recent_events sql_dt fault now db repo event_type =
     (case fault of
        Some e \<Rightarrow> Inl (SqliteError e)
      | None \<Rightarrow>
          (case parse_rows (sql_select_created_at sql_dt db repo event_type (cutoff_text now)) of
             Inl e \<Rightarrow> Inl e
           | Inr events \<Rightarrow>
               Inr (if length events > MAX_EVENTS
                    then drop (length events - MAX_EVENTS) events
                    else events)))"

text \<open>The rows that the query of \<open>get_recent_events\<close> returns at the time \<open>now\<close>.\<close>

definition selected ::
  "(string \<Rightarrow> string option) \<Rightarrow> datetime \<Rightarrow> row list \<Rightarrow> string \<Rightarrow> string option \<Rightarrow> string list" where
  "selected sql_dt now db repo event_type =
     sql_select_created_at sql_dt db repo event_type (cutoff_text now)"

section \<open>get_stats\<close>

text \<open>
  The dict \<open>results\<close>, as the list of its items in insertion order; assigning to a key
  replaces the value in place or appends a new item.
\<close>

type_synonym results = "(string \<times> (string option \<times> rat) list) list"

definition reported :: "results \<Rightarrow> string \<Rightarrow> string option \<Rightarrow> rat option" where
  "reported res repo event_type =
     (case map_of res repo of None \<Rightarrow> None | Some m \<Rightarrow> map_of m event_type)"

definition average_interval :: "datetime list \<Rightarrow> rat" where
  "average_interval event_times =
     seconds_between (last event_times) (hd event_times) / of_nat (length event_times - 1)"

fun stats_loop ::
  "(string \<Rightarrow> string option) \<Rightarrow> (statement \<Rightarrow> datetime) \<Rightarrow> (statement \<Rightarrow> sqlite_error option)
     \<Rightarrow> row list \<Rightarrow> (string \<times> string option) list \<Rightarrow> results \<Rightarrow> py_exn + results" where
  "stats_loop sql_dt clock faults db [] res = Inr res"
| "stats_loop sql_dt clock faults db ((repo, event_type) # pairs) res =
     (case get_recent_events sql_dt (faults (WindowQuery repo event_type))
             (clock (WindowQuery repo event_type)) db repo event_type of
        Inl e \<Rightarrow> Inl e
      | Inr event_times \<Rightarrow>
          (if length event_times < 2 then stats_loop sql_dt clock faults db pairs res
           else
             stats_loop sql_dt clock faults db pairs
               (AList.update repo
                  (AList.update event_type (average_interval event_times)
                     (case map_of res repo of None \<Rightarrow> [] | Some m \<Rightarrow> m))
                  res)))"

definition get_stats ::
  "(string \<Rightarrow> string option) \<Rightarrow> (statement \<Rightarrow> datetime) \<Rightarrow> (statement \<Rightarrow> sqlite_error option)
     \<Rightarrow> row list \<Rightarrow> py_exn + results" where
  "get_stats sql_dt clock faults db =
     (case faults PairsQuery of
        Some e \<Rightarrow> Inl (SqliteError e)
      | None \<Rightarrow>
          stats_loop sql_dt clock faults db
            (sql_select_distinct_pairs db (cutoff_text (clock PairsQuery))) [])"

text \<open>
  The call of \<open>get_recent_events\<close> that \<open>get_stats\<close> makes for a pair, and the pairs it
  makes it for.
\<close>

definition window_of ::
  "(string \<Rightarrow> string option) \<Rightarrow> (statement \<Rightarrow> datetime) \<Rightarrow> (statement \<Rightarrow> sqlite_error option)
     \<Rightarrow> row list \<Rightarrow> string \<Rightarrow> string option \<Rightarrow> py_exn + datetime list" where
  "window_of sql_dt clock faults db repo event_type =
     get_recent_events sql_dt (faults (WindowQuery repo event_type))
       (clock (WindowQuery repo event_type)) db repo event_type"

definition pairs_of :: "(statement \<Rightarrow> datetime) \<Rightarrow> row list \<Rightarrow> (string \<times> string option) list" where
  "pairs_of clock db = sql_select_distinct_pairs db (cutoff_text (clock PairsQuery))"

section \<open>fetch_repo_events and poll_github_events\<close>

text \<open>
  What \<open>requests.get\<close> yields for one repository: one of the exceptions of the library, or a
  response with its status code and, when its body is JSON, the value \<open>response.json()\<close>
  returns.
\<close>

datatype http_result =
    Timeout
  | ConnectionError
  | OtherRequestException
  | Response nat "json option"

text \<open>
  \<open>len(events)\<close> followed by \<open>for event in events\<close>: a list yields its elements, a dict its
  keys, a string its characters; anything else has no length.
\<close>

fun py_items :: "json \<Rightarrow> py_exn + json list" where
  "py_items (JArr xs) = Inr xs"
| "py_items (JObj kvs) = Inr (map (\<lambda>kv. JStr (fst kv)) kvs)"
| "py_items (JStr s) = Inr (map (\<lambda>c. JStr [c]) s)"
| "py_items j = Inl TypeError"

text \<open>
  The loop over the events. \<open>event.get\<close> exists on a dict only; the first exception that
  escapes \<open>insert_event\<close> ends the loop, with the rows inserted so far committed.
\<close>

fun insert_each :: "json list \<Rightarrow> string \<Rightarrow> row list \<Rightarrow> py_exn option \<times> row list" where
  "insert_each [] repo db = (None, db)"
| "insert_each (x # xs) repo db =
     (case x of
        JObj event \<Rightarrow>
          (case insert_event event repo db of
             (Some e, db') \<Rightarrow> (Some e, db')
           | (None, db') \<Rightarrow> insert_each xs repo db')
      | _ \<Rightarrow> (Some AttributeError, db))"

text \<open>
  The handlers of \<open>fetch_repo_events\<close> catch the exceptions of \<open>requests\<close> and \<open>ValueError\<close>;
  what the loop raises is neither, so it escapes.
\<close>

definition fetch_repo_events :: "http_result \<Rightarrow> string \<Rightarrow> row list \<Rightarrow> py_exn option \<times> row list" where
  "fetch_repo_events result repo db =
     (case result of
        Timeout \<Rightarrow> (None, db)
      | ConnectionError \<Rightarrow> (None, db)
      | OtherRequestException \<Rightarrow> (None, db)
      | Response status_code body \<Rightarrow>
          (if status_code = 200 then
             (case body of
                None \<Rightarrow> (None, db)
              | Some events \<Rightarrow>
                  (case py_items events of
                     Inl e \<Rightarrow> (Some e, db)
                   | Inr items \<Rightarrow> insert_each items repo db))
           else (None, db)))"

fun poll_github_events ::
  "(string \<Rightarrow> http_result) \<Rightarrow> string list \<Rightarrow> row list \<Rightarrow> py_exn option \<times> row list" where
  "poll_github_events feed [] db = (None, db)"
| "poll_github_events feed (repo # repos) db =
     (case fetch_repo_events (feed repo) repo db of
        (Some e, db') \<Rightarrow> (Some e, db')
      | (None, db') \<Rightarrow> poll_github_events feed repos db')"

text \<open>
  The outcomes of a fetch that the claims speak of. A fetch has failed when the request
  raised, when the status is not 200 (the program treats every other status like a status
  outside 2xx), or when the body is not JSON. It has succeeded when the status is 200 and
  the body is an array of event objects whose parameters can be bound.
\<close>

fun fetch_failed :: "http_result \<Rightarrow> bool" where
  "fetch_failed Timeout = True"
| "fetch_failed ConnectionError = True"
| "fetch_failed OtherRequestException = True"
| "fetch_failed (Response status_code body) = (status_code \<noteq> 200 \<or> body = None)"

definition storable :: "string \<Rightarrow> json \<Rightarrow> bool" where
  "storable repo x =
     (case x of
        JObj event \<Rightarrow> (case make_row event repo of Inl e \<Rightarrow> False | Inr w \<Rightarrow> True)
      | _ \<Rightarrow> False)"

fun fetch_succeeded :: "string \<Rightarrow> http_result \<Rightarrow> bool" where
  "fetch_succeeded repo (Response status_code (Some (JArr events))) =
     (status_code = 200 \<and> list_all (storable repo) events)"
| "fetch_succeeded repo result = False"

text \<open>
  The events that the successful fetches of a cycle delivered, each with its repository, in
  the order of the cycle.
\<close>

definition events_of :: "json list \<Rightarrow> event list" where
  "events_of xs = concat (map (\<lambda>x. case x of JObj event \<Rightarrow> [event] | _ \<Rightarrow> []) xs)"

definition fetched_from :: "string \<Rightarrow> http_result \<Rightarrow> (event \<times> string) list" where
  "fetched_from repo result =
     (case result of
        Response status_code (Some (JArr events)) \<Rightarrow>
          (if status_code = 200 then map (\<lambda>e. (e, repo)) (events_of events) else [])
      | _ \<Rightarrow> [])"

definition fetched_calls :: "(string \<Rightarrow> http_result) \<Rightarrow> string list \<Rightarrow> (event \<times> string) list" where
  "fetched_calls feed repos = concat (map (\<lambda>repo. fetched_from repo (feed repo)) repos)"

text \<open>
  A row is stored when the table holds it, or holds a row with its id (the row then was a
  duplicate).
\<close>

definition stored :: "row list \<Rightarrow> row \<Rightarrow> bool" where
  "stored db w \<longleftrightarrow> w \<in> set db \<or> (row_id w \<noteq> None \<and> row_id w \<in> set (map row_id db))"

section \<open>Example data\<close>

text \<open>
  SQLite's \<open>datetime()\<close> on the layout of the feed, \<open>YYYY-MM-DDTHH:MM:SS\<close> with an optional
  \<open>Z\<close>, for valid dates: the date, a blank and the time. It is the instance of the
  parameter \<open>sql_dt\<close> that the examples use; they hold no text of another layout.
\<close>

definition sqlite_datetime :: "string \<Rightarrow> string option" where
  "sqlite_datetime s =
     (let t = (if s \<noteq> [] \<and> last s = CHR ''Z'' then butlast s else s)
      in if length t = 19
         then (case fromisoformat t of
                 Inl e \<Rightarrow> None
               | Inr d \<Rightarrow> Some (take 10 t @ '' '' @ drop 11 t))
         else None)"

definition feed_event :: "string \<Rightarrow> string \<Rightarrow> string \<Rightarrow> event" where
  "feed_event i t c = [(''id'', JStr i), (''type'', JStr t), (''created_at'', JStr c)]"

definition push1 :: event where
  "push1 = feed_event ''1'' ''PushEvent'' ''2026-11-01T00:00:00Z''"

definition fork1 :: event where
  "fork1 = feed_event ''1'' ''ForkEvent'' ''2026-11-02T00:00:00Z''"

definition no_id :: event where
  "no_id = [(''type'', JStr ''PushEvent''), (''created_at'', JStr ''2026-11-01T00:00:00Z'')]"

definition eight_repos :: "json list" where
  "eight_repos = map (\<lambda>n. JStr (''owner/repo'' @ str_nat n)) [1, 2, 3, 4, 5, 6, 7, 8]"

definition now0 :: datetime where
  "now0 = Datetime 2026 11 4 12 0 0 500000"

text \<open>
  The scenario of the specification: five pushes to one repository, 300 seconds apart, and
  one event of another type.
\<close>

definition stats_calls :: "(event \<times> string) list" where
  "stats_calls =
     [(feed_event ''1'' ''PushEvent'' ''2026-11-01T00:00:00Z'', ''o/r''),
      (feed_event ''2'' ''PushEvent'' ''2026-11-01T00:05:00Z'', ''o/r''),
      (feed_event ''3'' ''PushEvent'' ''2026-11-01T00:10:00Z'', ''o/r''),
      (feed_event ''4'' ''PushEvent'' ''2026-11-01T00:15:00Z'', ''o/r''),
      (feed_event ''5'' ''PushEvent'' ''2026-11-01T00:20:00Z'', ''o/r''),
      (feed_event ''6'' ''ForkEvent'' ''2026-11-01T00:07:00Z'', ''o/r'')]"

definition stats_db :: "row list" where
  "stats_db = insert_many stats_calls []"

definition no_faults :: "statement \<Rightarrow> sqlite_error option" where
  "no_faults s = None"

definition pairs_fault :: "statement \<Rightarrow> sqlite_error option" where
  "pairs_fault s = (if s = PairsQuery then Some OperationalError else None)"

definition window_fault :: "statement \<Rightarrow> sqlite_error option" where
  "window_fault s =
     (if s = WindowQuery ''o/r'' (Some ''ForkEvent'') then Some OperationalError else None)"

text \<open>
  A cycle over three repositories: the first request times out, the second succeeds with
  two events, the third answers 200 with a body that is not JSON.
\<close>

definition feed0 :: "string \<Rightarrow> http_result" where
  "feed0 repo =
     (if repo = ''a/down'' then Timeout
      else if repo = ''o/r'' then Response 200 (Some (JArr [JObj push1, JObj no_id]))
      else Response 200 None)"

definition repos0 :: "string list" where
  "repos0 = [''a/down'', ''o/r'', ''b/html'']"

text \<open>
  A repository with 501 pushes inside the time bound, all created in the same second.
\<close>

definition busy_row :: "nat \<Rightarrow> row" where
  "busy_row n =
     Row (Some (str_nat n)) ''o/r'' (Some ''PushEvent'') (Some ''2026-11-01T00:00:00Z'')
       (JObj (feed_event (str_nat n) ''PushEvent'' ''2026-11-01T00:00:00Z''))"

definition busy_db :: "row list" where
  "busy_db = map busy_row [0..<501]"

section \<open>Properties of insert_event\<close>

lemma find_app:
  "find P (xs @ ys) = (case find P xs of None \<Rightarrow> find P ys | Some x \<Rightarrow> Some x)"
  by (induction xs) auto

lemma first_with_id_append:
  "first_with_id i (xs @ ys) =
     (case first_with_id i xs of None \<Rightarrow> first_with_id i ys | Some x \<Rightarrow> Some x)"
  by (simp add: first_with_id_def find_app split: option.splits)

lemma first_with_id_insert:
  "first_with_id i (sql_insert_or_ignore r db) = first_with_id i (db @ [r])"
  by (auto simp: first_with_id_def sql_insert_or_ignore_def find_app find_None_iff
      split: option.splits)

lemma snd_insert_event:
  "snd (insert_event e r db) =
     (case make_row e r of Inl x \<Rightarrow> db | Inr w \<Rightarrow> sql_insert_or_ignore w db)"
  by (simp add: insert_event_def split: sum.splits py_exn.splits)

lemma insert_many_Cons:
  "insert_many ((e, r) # calls) db = insert_many calls (snd (insert_event e r db))"
  by (simp add: insert_many_def)

lemma bound_rows_Cons:
  "bound_rows ((e, r) # calls) =
     (case make_row e r of Inl x \<Rightarrow> [] | Inr w \<Rightarrow> [w]) @ bound_rows calls"
  by (simp add: bound_rows_def)

lemma first_with_id_insert_many:
  "first_with_id i (insert_many calls db) = first_with_id i (db @ bound_rows calls)"
proof (induction calls arbitrary: db)
  case Nil
  then show ?case by (simp add: insert_many_def bound_rows_def)
next
  case (Cons c calls)
  obtain e r where c: "c = (e, r)" by (cases c)
  show ?case
  proof (cases "make_row e r")
    case (Inl x)
    then show ?thesis
      by (simp add: c insert_many_Cons bound_rows_Cons snd_insert_event Cons.IH)
  next
    case (Inr w)
    have "first_with_id i (sql_insert_or_ignore w db @ bound_rows calls)
          = first_with_id i ((db @ [w]) @ bound_rows calls)"
      unfolding first_with_id_append [of i "sql_insert_or_ignore w db"]
        first_with_id_append [of i "db @ [w]"] first_with_id_insert ..
    then show ?thesis
      by (simp add: c Inr insert_many_Cons bound_rows_Cons snd_insert_event Cons.IH)
  qed
qed

lemma rows_with_id_insert:
  "length (rows_with_id i db) \<le> 1 \<Longrightarrow> length (rows_with_id i (sql_insert_or_ignore r db)) \<le> 1"
  by (force simp: rows_with_id_def sql_insert_or_ignore_def filter_empty_conv image_iff)

lemma rows_with_id_insert_many:
  "length (rows_with_id i db) \<le> 1 \<Longrightarrow> length (rows_with_id i (insert_many calls db)) \<le> 1"
proof (induction calls arbitrary: db)
  case Nil
  then show ?case by (simp add: insert_many_def)
next
  case (Cons c calls)
  obtain e r where c: "c = (e, r)" by (cases c)
  have "length (rows_with_id i (snd (insert_event e r db))) \<le> 1"
    using Cons.prems rows_with_id_insert [of i db]
    by (cases "make_row e r") (simp_all add: snd_insert_event)
  then show ?case
    unfolding c insert_many_Cons by (rule Cons.IH)
qed

lemma unique_first:
  "length (rows_with_id i db) \<le> 1 \<Longrightarrow> x \<in> set db \<Longrightarrow> row_id x = Some i
     \<Longrightarrow> first_with_id i db = Some x"
proof (induction db)
  case Nil
  then show ?case by simp
next
  case (Cons a db)
  show ?case
  proof (cases "row_id a = Some i")
    case True
    with Cons.prems have "rows_with_id i db = []"
      by (simp add: rows_with_id_def)
    then have "\<forall>y \<in> set db. row_id y \<noteq> Some i"
      by (simp add: rows_with_id_def filter_empty_conv)
    with Cons.prems True have "x = a" by auto
    with True show ?thesis by (simp add: first_with_id_def)
  next
    case False
    with Cons show ?thesis by (auto simp: first_with_id_def rows_with_id_def)
  qed
qed

lemma insert_event_duplicate:
  "make_row e r = Inr w \<Longrightarrow> row_id w = Some i \<Longrightarrow> Some i \<in> set (map row_id db)
     \<Longrightarrow> insert_event e r db = (None, db)"
  by (simp add: insert_event_def sql_insert_or_ignore_def)

text \<open>
  Claim C2. Let \<open>e\<close> be an event whose parameters bind to the row \<open>w\<close>, with the id \<open>i\<close>. If
  the table already holds a row with the id \<open>i\<close>, \<open>insert_event\<close> leaves the table as it is
  and no exception escapes it. Consequently, after any sequence of calls on the empty table,
  the table holds at most one row with the id \<open>i\<close>, and that row is the row of the first call
  of the sequence that reached the table with that id.
\<close>

theorem insert_event_idempotent:
  "(make_row e r = Inr w \<longrightarrow> row_id w = Some i \<longrightarrow> Some i \<in> set (map row_id db)
      \<longrightarrow> insert_event e r db = (None, db))
   \<and> length (rows_with_id i (insert_many calls [])) \<le> 1
   \<and> (\<forall>x \<in> set (insert_many calls []).
         row_id x = Some i \<longrightarrow> first_with_id i (bound_rows calls) = Some x)"
proof (intro conjI impI ballI)
  assume "make_row e r = Inr w" "row_id w = Some i" "Some i \<in> set (map row_id db)"
  then show "insert_event e r db = (None, db)"
    by (rule insert_event_duplicate)
next
  show u: "length (rows_with_id i (insert_many calls [])) \<le> 1"
    by (rule rows_with_id_insert_many) (simp add: rows_with_id_def)
  fix x assume "x \<in> set (insert_many calls [])" "row_id x = Some i"
  with u have "first_with_id i (insert_many calls []) = Some x"
    by (rule unique_first)
  then show "first_with_id i (bound_rows calls) = Some x"
    by (simp add: first_with_id_insert_many)
qed

lemmas example_defs = push1_def fork1_def no_id_def feed_event_def
lemmas insert_defs = insert_many_def insert_event_def make_row_def dict_get_def
  sql_insert_or_ignore_def

text \<open>
  The scenario of the specification: two events with the same id and different payloads,
  inserted one after the other.
\<close>

theorem insert_event_idempotent_witness:
  "make_row fork1 ''o/r'' =
     Inr (Row (Some ''1'') ''o/r'' (Some ''ForkEvent'') (Some ''2026-11-02T00:00:00Z'') (JObj fork1))
   \<and> Some ''1'' \<in> set (map row_id (insert_many [(push1, ''o/r'')] []))
   \<and> insert_event fork1 ''o/r'' (insert_many [(push1, ''o/r'')] [])
       = (None, insert_many [(push1, ''o/r'')] [])
   \<and> length (rows_with_id ''1'' (insert_many [(push1, ''o/r''), (fork1, ''o/r'')] [])) \<le> 1
   \<and> insert_many [(push1, ''o/r''), (fork1, ''o/r'')] []
       = [Row (Some ''1'') ''o/r'' (Some ''PushEvent'') (Some ''2026-11-01T00:00:00Z'') (JObj push1)]
   \<and> first_with_id ''1'' (bound_rows [(push1, ''o/r''), (fork1, ''o/r'')])
       = Some (Row (Some ''1'') ''o/r'' (Some ''PushEvent'') (Some ''2026-11-01T00:00:00Z'') (JObj push1))"
proof -
  let ?w = "Row (Some ''1'') ''o/r'' (Some ''ForkEvent'') (Some ''2026-11-02T00:00:00Z'') (JObj fork1)"
  let ?p = "Row (Some ''1'') ''o/r'' (Some ''PushEvent'') (Some ''2026-11-01T00:00:00Z'') (JObj push1)"
  let ?calls = "[(push1, ''o/r''), (fork1, ''o/r'')]"
  have h1: "make_row fork1 ''o/r'' = Inr ?w"
    by (simp add: insert_defs example_defs)
  have h2: "row_id ?w = Some ''1''" by simp
  have db1: "insert_many [(push1, ''o/r'')] [] = [?p]"
    by (simp add: insert_defs example_defs)
  have h3: "Some ''1'' \<in> set (map row_id (insert_many [(push1, ''o/r'')] []))"
    by (simp add: db1)
  have db2: "insert_many ?calls [] = [?p]"
    by (simp add: insert_defs example_defs)
  have h4: "?p \<in> set (insert_many ?calls [])" "row_id ?p = Some ''1''"
    by (simp_all add: db2)
  note inst = insert_event_idempotent [of fork1 "''o/r''" ?w "''1''" "insert_many [(push1, ''o/r'')] []" ?calls]
  from inst h1 h2 h3 have c1: "insert_event fork1 ''o/r'' (insert_many [(push1, ''o/r'')] [])
       = (None, insert_many [(push1, ''o/r'')] [])" by blast
  from inst have c2: "length (rows_with_id ''1'' (insert_many ?calls [])) \<le> 1" by blast
  from inst h4 have c3: "first_with_id ''1'' (bound_rows ?calls) = Some ?p" by blast
  from h1 h3 c1 c2 db2 c3 show ?thesis by blast
qed

lemma make_row_no_id:
  "dict_get e ''id'' = None \<Longrightarrow> make_row e r = Inr w \<Longrightarrow> row_id w = None"
  by (auto simp: make_row_def split: sum.splits)

text \<open>
  Claim C10. An event without the key \<open>id\<close> whose other parameters bind is stored as a
  row with a NULL id, and every such call adds a row: the second call with the same event
  leaves two rows. One row per id, and a second insert that changes nothing, are therefore
  guarantees for events that carry an id only.
\<close>

theorem insert_event_missing_id:
  assumes "dict_get e ''id'' = None" and "make_row e r = Inr w"
  shows "row_id w = None \<and> insert_event e r db = (None, db @ [w])
         \<and> insert_event e r (db @ [w]) = (None, db @ [w, w])"
proof -
  have n: "row_id w = None" using assms by (rule make_row_no_id)
  then show ?thesis
    using assms(2) by (simp add: insert_event_def sql_insert_or_ignore_def)
qed

theorem insert_event_missing_id_witness:
  "dict_get no_id ''id'' = None
   \<and> insert_event no_id ''o/r'' [] =
       (None, [Row None ''o/r'' (Some ''PushEvent'') (Some ''2026-11-01T00:00:00Z'') (JObj no_id)])
   \<and> insert_event no_id ''o/r''
         [Row None ''o/r'' (Some ''PushEvent'') (Some ''2026-11-01T00:00:00Z'') (JObj no_id)] =
       (None, [Row None ''o/r'' (Some ''PushEvent'') (Some ''2026-11-01T00:00:00Z'') (JObj no_id),
               Row None ''o/r'' (Some ''PushEvent'') (Some ''2026-11-01T00:00:00Z'') (JObj no_id)])"
proof -
  let ?w = "Row None ''o/r'' (Some ''PushEvent'') (Some ''2026-11-01T00:00:00Z'') (JObj no_id)"
  have h1: "dict_get no_id ''id'' = None"
    by (simp add: dict_get_def no_id_def)
  have h2: "make_row no_id ''o/r'' = Inr ?w"
    by (simp add: make_row_def dict_get_def no_id_def)
  from insert_event_missing_id [OF h1 h2, of "[]"] h1 show ?thesis by simp
qed

section \<open>Properties of load_config\<close>

text \<open>
  Claim C8. When the configuration holds a list under \<open>repositories\<close>, \<open>load_config\<close>
  returns its first \<open>MAX_REPOS = 5\<close> entries in their order: exactly five entries of a
  longer list, and the whole list when it has at most five entries.
\<close>

theorem load_config_cap:
  assumes "map_of config ''repositories'' = Some (JArr repos)"
  shows "load_config (Parsed (JObj config)) = Inr (JArr (take 5 repos))
         \<and> MAX_REPOS = 5
         \<and> (5 < length repos \<longrightarrow> length (take 5 repos) = 5)
         \<and> (length repos \<le> 5 \<longrightarrow> take 5 repos = repos)"
  using assms by (simp add: load_config_def MAX_REPOS_def)

theorem load_config_cap_witness:
  "load_config (Parsed (JObj [(''repositories'', JArr eight_repos)]))
     = Inr (JArr [JStr ''owner/repo1'', JStr ''owner/repo2'', JStr ''owner/repo3'',
                  JStr ''owner/repo4'', JStr ''owner/repo5''])
   \<and> load_config (Parsed (JObj [(''repositories'', JArr (take 2 eight_repos))]))
     = Inr (JArr [JStr ''owner/repo1'', JStr ''owner/repo2''])"
proof -
  have t5: "take 5 eight_repos = [JStr ''owner/repo1'', JStr ''owner/repo2'', JStr ''owner/repo3'',
                  JStr ''owner/repo4'', JStr ''owner/repo5'']"
    by (simp add: eight_repos_def digit_char_def)
  have t2: "take 5 (take 2 eight_repos) = [JStr ''owner/repo1'', JStr ''owner/repo2'']"
    by (simp add: eight_repos_def digit_char_def)
  have m1: "map_of [(''repositories'', JArr eight_repos)] ''repositories'' = Some (JArr eight_repos)"
    by simp
  have m2: "map_of [(''repositories'', JArr (take 2 eight_repos))] ''repositories''
            = Some (JArr (take 2 eight_repos))"
    by simp
  from load_config_cap [OF m1] load_config_cap [OF m2] t5 t2 show ?thesis by simp
qed

section \<open>Properties of get_stats\<close>

lemma reported_update:
  "reported (AList.update repo
      (AList.update ty v (case map_of res repo of None \<Rightarrow> [] | Some m \<Rightarrow> m)) res) r t
   = (if r = repo \<and> t = ty then Some v else reported res r t)"
  by (auto simp: reported_def update_conv' split: option.splits)

lemma stats_loop_Cons:
  "stats_loop sql_dt clock faults db ((repo, ty) # ps) res =
     (case window_of sql_dt clock faults db repo ty of
        Inl e \<Rightarrow> Inl e
      | Inr ts \<Rightarrow>
          (if length ts < 2 then stats_loop sql_dt clock faults db ps res
           else stats_loop sql_dt clock faults db ps
                  (AList.update repo
                     (AList.update ty (average_interval ts)
                        (case map_of res repo of None \<Rightarrow> [] | Some m \<Rightarrow> m)) res)))"
  by (simp add: window_of_def)

lemma stats_loop_other:
  "stats_loop sql_dt clock faults db ps res = Inr res' \<Longrightarrow> (r, t) \<notin> set ps
     \<Longrightarrow> reported res' r t = reported res r t"
proof (induction ps arbitrary: res)
  case Nil
  then show ?case by simp
next
  case (Cons p ps)
  obtain repo ty where p: "p = (repo, ty)" by (cases p)
  from Cons.prems(2) have ne: "\<not> (r = repo \<and> t = ty)" and notin: "(r, t) \<notin> set ps"
    by (auto simp: p)
  from Cons.prems(1) obtain ts where w: "window_of sql_dt clock faults db repo ty = Inr ts"
    by (auto simp: p stats_loop_Cons simp del: stats_loop.simps split: sum.splits)
  show ?case
  proof (cases "length ts < 2")
    case True
    with Cons.prems(1) w have "stats_loop sql_dt clock faults db ps res = Inr res'"
      by (simp add: p stats_loop_Cons del: stats_loop.simps)
    then show ?thesis using notin by (rule Cons.IH)
  next
    case False
    let ?res = "AList.update repo (AList.update ty (average_interval ts)
                  (case map_of res repo of None \<Rightarrow> [] | Some m \<Rightarrow> m)) res"
    from False Cons.prems(1) w have "stats_loop sql_dt clock faults db ps ?res = Inr res'"
      by (simp add: p stats_loop_Cons del: stats_loop.simps)
    then have "reported res' r t = reported ?res r t" using notin by (rule Cons.IH)
    also have "\<dots> = reported res r t" using ne by (auto simp: reported_update)
    finally show ?thesis .
  qed
qed

lemma stats_loop_short:
  "stats_loop sql_dt clock faults db ps res = Inr res'
     \<Longrightarrow> window_of sql_dt clock faults db r t = Inr w \<Longrightarrow> length w < 2
     \<Longrightarrow> reported res' r t = reported res r t"
proof (induction ps arbitrary: res)
  case Nil
  then show ?case by simp
next
  case (Cons p ps)
  obtain repo ty where p: "p = (repo, ty)" by (cases p)
  from Cons.prems(1) obtain ts where w: "window_of sql_dt clock faults db repo ty = Inr ts"
    by (auto simp: p stats_loop_Cons simp del: stats_loop.simps split: sum.splits)
  show ?case
  proof (cases "length ts < 2")
    case True
    with Cons.prems(1) w have "stats_loop sql_dt clock faults db ps res = Inr res'"
      by (simp add: p stats_loop_Cons del: stats_loop.simps)
    then show ?thesis using Cons.prems(2,3) by (rule Cons.IH)
  next
    case False
    let ?res = "AList.update repo (AList.update ty (average_interval ts)
                  (case map_of res repo of None \<Rightarrow> [] | Some m \<Rightarrow> m)) res"
    from False w Cons.prems(2,3) have ne: "\<not> (r = repo \<and> t = ty)" by auto
    from False Cons.prems(1) w have "stats_loop sql_dt clock faults db ps ?res = Inr res'"
      by (simp add: p stats_loop_Cons del: stats_loop.simps)
    then have "reported res' r t = reported ?res r t" using Cons.prems(2,3) by (rule Cons.IH)
    also have "\<dots> = reported res r t" using ne by (auto simp: reported_update)
    finally show ?thesis .
  qed
qed

lemma stats_loop_keeps:
  "stats_loop sql_dt clock faults db ps res = Inr res'
     \<Longrightarrow> window_of sql_dt clock faults db r t = Inr w \<Longrightarrow> 2 \<le> length w
     \<Longrightarrow> reported res r t = Some (average_interval w)
     \<Longrightarrow> reported res' r t = Some (average_interval w)"
proof (induction ps arbitrary: res)
  case Nil
  then show ?case by simp
next
  case (Cons p ps)
  obtain repo ty where p: "p = (repo, ty)" by (cases p)
  from Cons.prems(1) obtain ts where w: "window_of sql_dt clock faults db repo ty = Inr ts"
    by (auto simp: p stats_loop_Cons simp del: stats_loop.simps split: sum.splits)
  show ?case
  proof (cases "length ts < 2")
    case True
    with Cons.prems(1) w have "stats_loop sql_dt clock faults db ps res = Inr res'"
      by (simp add: p stats_loop_Cons del: stats_loop.simps)
    then show ?thesis using Cons.prems(2,3,4) by (rule Cons.IH)
  next
    case False
    let ?res = "AList.update repo (AList.update ty (average_interval ts)
                  (case map_of res repo of None \<Rightarrow> [] | Some m \<Rightarrow> m)) res"
    from False Cons.prems(1) w have l: "stats_loop sql_dt clock faults db ps ?res = Inr res'"
      by (simp add: p stats_loop_Cons del: stats_loop.simps)
    have "reported ?res r t = Some (average_interval w)"
      using Cons.prems(2,4) w by (auto simp: reported_update)
    with l Cons.prems(2,3) show ?thesis by (rule Cons.IH)
  qed
qed

lemma stats_loop_sets:
  "stats_loop sql_dt clock faults db ps res = Inr res' \<Longrightarrow> (r, t) \<in> set ps
     \<Longrightarrow> window_of sql_dt clock faults db r t = Inr w \<Longrightarrow> 2 \<le> length w
     \<Longrightarrow> reported res' r t = Some (average_interval w)"
proof (induction ps arbitrary: res)
  case Nil
  then show ?case by simp
next
  case (Cons p ps)
  obtain repo ty where p: "p = (repo, ty)" by (cases p)
  from Cons.prems(1) obtain ts where w: "window_of sql_dt clock faults db repo ty = Inr ts"
    by (auto simp: p stats_loop_Cons simp del: stats_loop.simps split: sum.splits)
  show ?case
  proof (cases "(r, t) = (repo, ty)")
    case True
    with w Cons.prems(3) have ts: "ts = w" by simp
    let ?res = "AList.update repo (AList.update ty (average_interval ts)
                  (case map_of res repo of None \<Rightarrow> [] | Some m \<Rightarrow> m)) res"
    from Cons.prems(1,4) w ts have l: "stats_loop sql_dt clock faults db ps ?res = Inr res'"
      by (simp add: p stats_loop_Cons del: stats_loop.simps)
    have "reported ?res r t = Some (average_interval w)"
      using True ts by (simp add: reported_update)
    with l Cons.prems(3,4) show ?thesis by (rule stats_loop_keeps)
  next
    case False
    with Cons.prems(2) have mem: "(r, t) \<in> set ps" by (auto simp: p)
    show ?thesis
    proof (cases "length ts < 2")
      case True
      with Cons.prems(1) w have "stats_loop sql_dt clock faults db ps res = Inr res'"
        by (simp add: p stats_loop_Cons del: stats_loop.simps)
      then show ?thesis using mem Cons.prems(3,4) by (rule Cons.IH)
    next
      case False
      let ?res = "AList.update repo (AList.update ty (average_interval ts)
                    (case map_of res repo of None \<Rightarrow> [] | Some m \<Rightarrow> m)) res"
      from False Cons.prems(1) w have "stats_loop sql_dt clock faults db ps ?res = Inr res'"
        by (simp add: p stats_loop_Cons del: stats_loop.simps)
      then show ?thesis using mem Cons.prems(3,4) by (rule Cons.IH)
    qed
  qed
qed

lemma get_stats_Inr:
  "get_stats sql_dt clock faults db = Inr res \<Longrightarrow>
     stats_loop sql_dt clock faults db (pairs_of clock db) [] = Inr res"
  by (simp add: get_stats_def pairs_of_def split: option.splits)

text \<open>
  Claim C1. When \<open>/stats\<close> answers, a pair it found whose window is
  \<open>t0, t1, \<dots>, tn\<close> with \<open>n \<ge> 1\<close> gaps is reported with \<open>(tn - t0) / n\<close> seconds: the span
  from the first to the last timestamp of the window, divided by the number of gaps.
\<close>

theorem get_stats_average:
  assumes "get_stats sql_dt clock faults db = Inr res"
    and "(repo, event_type) \<in> set (pairs_of clock db)"
    and "window_of sql_dt clock faults db repo event_type = Inr (t0 # ts)"
    and "ts \<noteq> []"
  shows "reported res repo event_type
         = Some (of_int (to_microseconds (last ts) - to_microseconds t0) / 1000000
                 / of_nat (length ts))"
proof -
  from assms(4) have len: "2 \<le> length (t0 # ts)" by (cases ts) simp_all
  from assms(1) have "stats_loop sql_dt clock faults db (pairs_of clock db) [] = Inr res"
    by (rule get_stats_Inr)
  then have "reported res repo event_type = Some (average_interval (t0 # ts))"
    using assms(2,3) len by (rule stats_loop_sets)
  then show ?thesis
    using assms(4) by (simp add: average_interval_def seconds_between_def)
qed

text \<open>
  Claim C5. When \<open>/stats\<close> answers, a pair whose window holds no timestamp or one has no
  entry in the result: nothing is reported under its repository and event type.
\<close>

theorem get_stats_omits:
  assumes "get_stats sql_dt clock faults db = Inr res"
    and "window_of sql_dt clock faults db repo event_type = Inr ts"
    and "length ts < 2"
  shows "reported res repo event_type = None"
proof -
  from assms(1) have "stats_loop sql_dt clock faults db (pairs_of clock db) [] = Inr res"
    by (rule get_stats_Inr)
  then have "reported res repo event_type = reported [] repo event_type"
    using assms(2,3) by (rule stats_loop_short)
  then show ?thesis by (simp add: reported_def)
qed

theorem get_stats_average_witness:
  "get_stats sqlite_datetime (\<lambda>s. now0) no_faults stats_db
     = Inr [(''o/r'', [(Some ''PushEvent'', 300)])]
   \<and> (''o/r'', Some ''PushEvent'') \<in> set (pairs_of (\<lambda>s. now0) stats_db)
   \<and> window_of sqlite_datetime (\<lambda>s. now0) no_faults stats_db ''o/r'' (Some ''PushEvent'')
       = Inr [Datetime 2026 11 1 0 0 0 0, Datetime 2026 11 1 0 5 0 0, Datetime 2026 11 1 0 10 0 0,
              Datetime 2026 11 1 0 15 0 0, Datetime 2026 11 1 0 20 0 0]
   \<and> reported [(''o/r'', [(Some ''PushEvent'', 300)])] ''o/r'' (Some ''PushEvent'')
       = Some (of_int (to_microseconds (Datetime 2026 11 1 0 20 0 0)
                         - to_microseconds (Datetime 2026 11 1 0 0 0 0)) / 1000000 / 4)"
proof -
  let ?ts = "[Datetime 2026 11 1 0 5 0 0, Datetime 2026 11 1 0 10 0 0,
              Datetime 2026 11 1 0 15 0 0, Datetime 2026 11 1 0 20 0 0]"
  have h1: "get_stats sqlite_datetime (\<lambda>s. now0) no_faults stats_db
              = Inr [(''o/r'', [(Some ''PushEvent'', 300)])]"
    by code_simp
  have h2: "(''o/r'', Some ''PushEvent'') \<in> set (pairs_of (\<lambda>s. now0) stats_db)"
    by code_simp
  have h3: "window_of sqlite_datetime (\<lambda>s. now0) no_faults stats_db ''o/r'' (Some ''PushEvent'')
              = Inr (Datetime 2026 11 1 0 0 0 0 # ?ts)"
    by code_simp
  have h4: "?ts \<noteq> []" by simp
  from get_stats_average [OF h1 h2 h3 h4] h1 h2 h3 show ?thesis by simp
qed

theorem get_stats_omits_witness:
  "get_stats sqlite_datetime (\<lambda>s. now0) no_faults stats_db
     = Inr [(''o/r'', [(Some ''PushEvent'', 300)])]
   \<and> window_of sqlite_datetime (\<lambda>s. now0) no_faults stats_db ''o/r'' (Some ''ForkEvent'')
       = Inr [Datetime 2026 11 1 0 7 0 0]
   \<and> reported [(''o/r'', [(Some ''PushEvent'', 300)])] ''o/r'' (Some ''ForkEvent'') = None"
proof -
  have h1: "get_stats sqlite_datetime (\<lambda>s. now0) no_faults stats_db
              = Inr [(''o/r'', [(Some ''PushEvent'', 300)])]"
    by code_simp
  have h2: "window_of sqlite_datetime (\<lambda>s. now0) no_faults stats_db ''o/r'' (Some ''ForkEvent'')
              = Inr [Datetime 2026 11 1 0 7 0 0]"
    by code_simp
  have h3: "length [Datetime 2026 11 1 0 7 0 0] < 2" by simp
  from get_stats_omits [OF h1 h2 h3] h1 h2 show ?thesis by simp
qed

lemma window_of_fault:
  "faults (WindowQuery r t) = Some e \<Longrightarrow> window_of sql_dt clock faults db r t = Inl (SqliteError e)"
  by (simp add: window_of_def get_recent_events_def)

lemma stats_loop_fails:
  "(r, t) \<in> set ps \<Longrightarrow> window_of sql_dt clock faults db r t = Inl y
     \<Longrightarrow> \<exists>x. stats_loop sql_dt clock faults db ps res = Inl x"
proof (induction ps arbitrary: res)
  case Nil
  then show ?case by simp
next
  case (Cons p ps)
  obtain repo ty where p: "p = (repo, ty)" by (cases p)
  show ?case
  proof (cases "window_of sql_dt clock faults db repo ty")
    case (Inl x)
    then show ?thesis by (simp add: p stats_loop_Cons del: stats_loop.simps)
  next
    case (Inr ts)
    with Cons.prems have "(r, t) \<in> set ps" by (auto simp: p)
    then have "\<exists>x. stats_loop sql_dt clock faults db ps res' = Inl x" for res'
      using Cons.prems(2) by (rule Cons.IH)
    then show ?thesis by (simp add: p Inr stats_loop_Cons del: stats_loop.simps)
  qed
qed

lemma stats_loop_error_source:
  "stats_loop sql_dt clock faults db ps res = Inl x
     \<Longrightarrow> \<exists>r t. (r, t) \<in> set ps \<and> window_of sql_dt clock faults db r t = Inl x"
proof (induction ps arbitrary: res)
  case Nil
  then show ?case by simp
next
  case (Cons p ps)
  obtain repo ty where p: "p = (repo, ty)" by (cases p)
  show ?case
  proof (cases "window_of sql_dt clock faults db repo ty")
    case (Inl y)
    with Cons.prems have "y = x" by (simp add: p stats_loop_Cons del: stats_loop.simps)
    with Inl show ?thesis by (auto simp: p)
  next
    case (Inr ts)
    with Cons.prems obtain res' where "stats_loop sql_dt clock faults db ps res' = Inl x"
      by (auto simp: p stats_loop_Cons simp del: stats_loop.simps split: if_splits)
    then have "\<exists>r t. (r, t) \<in> set ps \<and> window_of sql_dt clock faults db r t = Inl x"
      by (rule Cons.IH)
    then show ?thesis by auto
  qed
qed

lemma stats_loop_succeeds:
  "\<forall>p \<in> set ps. \<exists>w. window_of sql_dt clock faults db (fst p) (snd p) = Inr w
     \<Longrightarrow> \<exists>res'. stats_loop sql_dt clock faults db ps res = Inr res'"
proof (induction ps arbitrary: res)
  case Nil
  then show ?case by simp
next
  case (Cons p ps)
  obtain repo ty where p: "p = (repo, ty)" by (cases p)
  from Cons.prems obtain w where w: "window_of sql_dt clock faults db repo ty = Inr w"
    by (auto simp: p)
  from Cons.prems have "\<exists>res'. stats_loop sql_dt clock faults db ps r' = Inr res'" for r'
    by (intro Cons.IH) simp
  then show ?case by (simp add: p w stats_loop_Cons del: stats_loop.simps)
qed

lemma parse_rows_succeeds:
  "\<forall>c \<in> set cs. \<exists>d. fromisoformat (remove_Z c) = Inr d \<Longrightarrow> \<exists>ds. parse_rows cs = Inr ds"
  by (induction cs) auto

lemma created_at_column_filter:
  "set (created_at_column (filter P db)) \<subseteq> set (created_at_column db)"
  by (auto simp: created_at_column_def)

lemma set_sql_select_created_at:
  "set (sql_select_created_at sql_dt db repo ty cutoff) \<subseteq> set (created_at_column db)"
  using created_at_column_filter [of "window_row repo ty cutoff" db]
  by (simp add: sql_select_created_at_def)

lemma window_of_succeeds:
  assumes "faults (WindowQuery r t) = None"
    and "\<forall>c \<in> set (created_at_column db). \<exists>d. fromisoformat (remove_Z c) = Inr d"
  shows "\<exists>w. window_of sql_dt clock faults db r t = Inr w"
proof -
  let ?q = "sql_select_created_at sql_dt db r t (cutoff_text (clock (WindowQuery r t)))"
  from assms(2) set_sql_select_created_at [of sql_dt db r t]
  have "\<forall>c \<in> set ?q. \<exists>d. fromisoformat (remove_Z c) = Inr d" by blast
  then obtain ds where "parse_rows ?q = Inr ds"
    using parse_rows_succeeds by blast
  then show ?thesis
    using assms(1) by (simp add: window_of_def get_recent_events_def)
qed

text \<open>
  Claim C7. A read that the storage layer fails makes the request fail with that error: the
  query for the pairs directly, and a window query of a pair found by it with the error of
  a window read. Without any storage error, a table with no row inside the time bound gives
  the empty result, and a table whose timestamps can all be read gives a result.
\<close>

theorem get_stats_read_errors:
  "(faults PairsQuery = Some e \<longrightarrow> get_stats sql_dt clock faults db = Inl (SqliteError e))
   \<and> (faults PairsQuery = None \<longrightarrow> (repo, ty) \<in> set (pairs_of clock db)
        \<longrightarrow> faults (WindowQuery repo ty) = Some e
        \<longrightarrow> (\<exists>x. get_stats sql_dt clock faults db = Inl x
               \<and> (\<exists>r t. (r, t) \<in> set (pairs_of clock db)
                      \<and> window_of sql_dt clock faults db r t = Inl x)))
   \<and> ((\<forall>s. faults s = None)
        \<longrightarrow> (\<forall>r \<in> set db. \<not> not_before (cutoff_text (clock PairsQuery)) r)
        \<longrightarrow> get_stats sql_dt clock faults db = Inr [])
   \<and> ((\<forall>s. faults s = None)
        \<longrightarrow> (\<forall>c \<in> set (created_at_column db). \<exists>d. fromisoformat (remove_Z c) = Inr d)
        \<longrightarrow> (\<exists>res. get_stats sql_dt clock faults db = Inr res))"
proof (intro conjI impI)
  assume "faults PairsQuery = Some e"
  then show "get_stats sql_dt clock faults db = Inl (SqliteError e)"
    by (simp add: get_stats_def)
next
  assume f: "faults PairsQuery = None" and m: "(repo, ty) \<in> set (pairs_of clock db)"
    and w: "faults (WindowQuery repo ty) = Some e"
  from w have "window_of sql_dt clock faults db repo ty = Inl (SqliteError e)"
    by (rule window_of_fault)
  with m obtain x where x: "stats_loop sql_dt clock faults db (pairs_of clock db) [] = Inl x"
    using stats_loop_fails by blast
  then have "\<exists>r t. (r, t) \<in> set (pairs_of clock db) \<and> window_of sql_dt clock faults db r t = Inl x"
    by (rule stats_loop_error_source)
  moreover from f x have "get_stats sql_dt clock faults db = Inl x"
    by (simp add: get_stats_def pairs_of_def)
  ultimately show "\<exists>x. get_stats sql_dt clock faults db = Inl x
               \<and> (\<exists>r t. (r, t) \<in> set (pairs_of clock db)
                      \<and> window_of sql_dt clock faults db r t = Inl x)"
    by blast
next
  assume f: "\<forall>s. faults s = None"
    and n: "\<forall>r \<in> set db. \<not> not_before (cutoff_text (clock PairsQuery)) r"
  from n have "filter (not_before (cutoff_text (clock PairsQuery))) db = []"
    by (simp add: filter_empty_conv)
  then have "pairs_of clock db = []"
    by (simp add: pairs_of_def sql_select_distinct_pairs_def)
  with f show "get_stats sql_dt clock faults db = Inr []"
    by (simp add: get_stats_def pairs_of_def)
next
  assume f: "\<forall>s. faults s = None"
    and n: "\<forall>c \<in> set (created_at_column db). \<exists>d. fromisoformat (remove_Z c) = Inr d"
  have "\<forall>p \<in> set (pairs_of clock db).
          \<exists>w. window_of sql_dt clock faults db (fst p) (snd p) = Inr w"
    using f n window_of_succeeds by blast
  then obtain res where "stats_loop sql_dt clock faults db (pairs_of clock db) [] = Inr res"
    using stats_loop_succeeds by blast
  with f show "\<exists>res. get_stats sql_dt clock faults db = Inr res"
    by (simp add: get_stats_def pairs_of_def)
qed

theorem get_stats_read_errors_witness:
  "get_stats sqlite_datetime (\<lambda>s. now0) pairs_fault stats_db = Inl (SqliteError OperationalError)
   \<and> get_stats sqlite_datetime (\<lambda>s. now0) window_fault stats_db = Inl (SqliteError OperationalError)
   \<and> get_stats sqlite_datetime (\<lambda>s. now0) no_faults [] = Inr []
   \<and> get_stats sqlite_datetime (\<lambda>s. now0) no_faults stats_db
       = Inr [(''o/r'', [(Some ''PushEvent'', 300)])]"
proof -
  have p1: "pairs_fault PairsQuery = Some OperationalError"
    by (simp add: pairs_fault_def)
  have w1: "window_fault PairsQuery = None"
    and w2: "window_fault (WindowQuery ''o/r'' (Some ''ForkEvent'')) = Some OperationalError"
    by (simp_all add: window_fault_def)
  have w3: "(''o/r'', Some ''ForkEvent'') \<in> set (pairs_of (\<lambda>s. now0) stats_db)"
    by code_simp
  have n1: "\<forall>s. no_faults s = None"
    by (simp add: no_faults_def)
  have n2: "\<forall>r \<in> set []. \<not> not_before (cutoff_text now0) r"
    by simp
  have n3: "\<forall>c \<in> set (created_at_column stats_db). \<exists>d. fromisoformat (remove_Z c) = Inr d"
  proof -
    have "list_all (\<lambda>c. case fromisoformat (remove_Z c) of Inl e \<Rightarrow> False | Inr d \<Rightarrow> True)
            (created_at_column stats_db)"
      by code_simp
    then have a: "\<forall>c \<in> set (created_at_column stats_db).
        case fromisoformat (remove_Z c) of Inl e \<Rightarrow> False | Inr d \<Rightarrow> True"
      by (simp add: list_all_iff)
    show ?thesis
    proof
      fix c assume "c \<in> set (created_at_column stats_db)"
      with a have "case fromisoformat (remove_Z c) of Inl e \<Rightarrow> False | Inr d \<Rightarrow> True" ..
      then show "\<exists>d. fromisoformat (remove_Z c) = Inr d"
        by (cases "fromisoformat (remove_Z c)") simp_all
    qed
  qed
  have c1: "get_stats sqlite_datetime (\<lambda>s. now0) pairs_fault stats_db
              = Inl (SqliteError OperationalError)"
    using get_stats_read_errors [of pairs_fault OperationalError sqlite_datetime "\<lambda>s. now0" stats_db]
      p1 by blast
  have "\<exists>x. get_stats sqlite_datetime (\<lambda>s. now0) window_fault stats_db = Inl x"
    using get_stats_read_errors [of window_fault OperationalError sqlite_datetime "\<lambda>s. now0"
        stats_db "''o/r''" "Some ''ForkEvent''"] w1 w2 w3 by blast
  moreover have e2: "get_stats sqlite_datetime (\<lambda>s. now0) window_fault stats_db
              = Inl (SqliteError OperationalError)"
    by code_simp
  have c3: "get_stats sqlite_datetime (\<lambda>s. now0) no_faults [] = Inr []"
    using get_stats_read_errors [of no_faults _ sqlite_datetime "\<lambda>s. now0" "[]"] n1 n2 by blast
  have "\<exists>res. get_stats sqlite_datetime (\<lambda>s. now0) no_faults stats_db = Inr res"
    using get_stats_read_errors [of no_faults _ sqlite_datetime "\<lambda>s. now0" stats_db] n1 n3
    by blast
  moreover have e4: "get_stats sqlite_datetime (\<lambda>s. now0) no_faults stats_db
       = Inr [(''o/r'', [(Some ''PushEvent'', 300)])]"
    by code_simp
  ultimately show ?thesis using c1 e2 c3 by blast
qed
section \<open>Properties of the poll cycle\<close>

lemma fetch_failed_no_effect:
  "fetch_failed result \<Longrightarrow> fetch_repo_events result repo db = (None, db)"
  by (cases result) (auto simp: fetch_repo_events_def)

lemma fetch_failed_fetched_from:
  "fetch_failed result \<Longrightarrow> fetched_from repo result = []"
  by (cases result) (auto simp: fetched_from_def split: option.splits json.splits)

lemma insert_many_append:
  "insert_many (xs @ ys) db = insert_many ys (insert_many xs db)"
  by (simp add: insert_many_def)

lemma insert_many_Nil: "insert_many [] db = db"
  by (simp add: insert_many_def)

lemma insert_each_storable:
  "list_all (storable repo) xs \<Longrightarrow>
     insert_each xs repo db = (None, insert_many (map (\<lambda>e. (e, repo)) (events_of xs)) db)"
proof (induction xs arbitrary: db)
  case Nil
  then show ?case by (simp add: events_of_def insert_many_Nil)
next
  case (Cons x xs)
  from Cons.prems obtain e w where x: "x = JObj e" and w: "make_row e repo = Inr w"
    by (auto simp: storable_def split: json.splits sum.splits)
  from Cons.prems have rest: "list_all (storable repo) xs" by simp
  have ev: "events_of (x # xs) = e # events_of xs"
    by (simp add: events_of_def x)
  have ie: "insert_event e repo db = (None, sql_insert_or_ignore w db)"
    by (simp add: insert_event_def w)
  have "insert_each (x # xs) repo db = insert_each xs repo (sql_insert_or_ignore w db)"
    by (simp add: x ie)
  also have "\<dots> = (None, insert_many (map (\<lambda>e. (e, repo)) (events_of xs))
                          (sql_insert_or_ignore w db))"
    by (rule Cons.IH [OF rest])
  also have "insert_many (map (\<lambda>e. (e, repo)) (events_of xs)) (sql_insert_or_ignore w db)
             = insert_many (map (\<lambda>e. (e, repo)) (events_of (x # xs))) db"
    by (simp add: ev insert_many_Cons snd_insert_event w)
  finally show ?case .
qed

lemma fetch_succeeded_effect:
  "fetch_succeeded repo result \<Longrightarrow>
     fetch_repo_events result repo db = (None, insert_many (fetched_from repo result) db)"
proof (induction repo result rule: fetch_succeeded.induct)
  case (1 repo status_code events)
  then show ?case
    by (simp add: fetch_repo_events_def fetched_from_def insert_each_storable)
qed simp_all

lemma poll_cycle:
  "\<forall>repo \<in> set repos. fetch_failed (feed repo) \<or> fetch_succeeded repo (feed repo) \<Longrightarrow>
     poll_github_events feed repos db = (None, insert_many (fetched_calls feed repos) db)"
proof (induction repos arbitrary: db)
  case Nil
  then show ?case by (simp add: fetched_calls_def insert_many_Nil)
next
  case (Cons repo repos)
  from Cons.prems have rest:
    "\<forall>r \<in> set repos. fetch_failed (feed r) \<or> fetch_succeeded r (feed r)" by simp
  have step: "fetch_repo_events (feed repo) repo db
                = (None, insert_many (fetched_from repo (feed repo)) db)"
  proof (cases "fetch_failed (feed repo)")
    case True
    then show ?thesis
      by (simp add: fetch_failed_no_effect fetch_failed_fetched_from insert_many_Nil)
  next
    case False
    with Cons.prems have "fetch_succeeded repo (feed repo)" by simp
    then show ?thesis by (rule fetch_succeeded_effect)
  qed
  have "fetched_calls feed (repo # repos)
          = fetched_from repo (feed repo) @ fetched_calls feed repos"
    by (simp add: fetched_calls_def)
  then show ?case
    by (simp add: step insert_many_append Cons.IH [OF rest])
qed

lemma stored_insert_keeps: "stored db w \<Longrightarrow> stored (sql_insert_or_ignore v db) w"
  by (auto simp: stored_def sql_insert_or_ignore_def)

lemma stored_insert_self: "stored (sql_insert_or_ignore w db) w"
  by (auto simp: stored_def sql_insert_or_ignore_def)

lemma stored_insert_many_keeps: "stored db w \<Longrightarrow> stored (insert_many calls db) w"
proof (induction calls arbitrary: db)
  case Nil
  then show ?case by (simp add: insert_many_Nil)
next
  case (Cons c calls)
  obtain e r where c: "c = (e, r)" by (cases c)
  from Cons.prems have "stored (snd (insert_event e r db)) w"
    by (cases "make_row e r") (simp_all add: snd_insert_event stored_insert_keeps)
  then show ?case
    unfolding c insert_many_Cons by (rule Cons.IH)
qed

lemma stored_insert_many:
  "(e, r) \<in> set calls \<Longrightarrow> make_row e r = Inr w \<Longrightarrow> stored (insert_many calls db) w"
proof (induction calls arbitrary: db)
  case Nil
  then show ?case by simp
next
  case (Cons c calls)
  obtain e' r' where c: "c = (e', r')" by (cases c)
  show ?case
  proof (cases "(e, r) = (e', r')")
    case True
    with Cons.prems(2) have "stored (snd (insert_event e' r' db)) w"
      by (simp add: snd_insert_event stored_insert_self)
    then show ?thesis
      unfolding c insert_many_Cons by (rule stored_insert_many_keeps)
  next
    case False
    with Cons.prems(1) have "(e, r) \<in> set calls" by (auto simp: c)
    then show ?thesis
      unfolding c insert_many_Cons using Cons.prems(2) by (rule Cons.IH)
  qed
qed

text \<open>
  Claim C6. A fetch that fails with a timeout, a network error, a status other than 200 or
  a body that is not JSON lets no exception escape and leaves the table as it is. In a
  cycle where every fetch either fails in one of these ways or succeeds, no exception
  escapes the cycle, the table it leaves is the one obtained by inserting the events of the
  successful fetches in order, and every event a successful fetch delivered is stored.
\<close>

theorem poll_survives_failed_fetch:
  "(fetch_failed result \<longrightarrow> fetch_repo_events result repo db = (None, db))
   \<and> ((\<forall>r \<in> set repos. fetch_failed (feed r) \<or> fetch_succeeded r (feed r)) \<longrightarrow>
        poll_github_events feed repos db = (None, insert_many (fetched_calls feed repos) db)
        \<and> (\<forall>r \<in> set repos. \<forall>events e w.
              feed r = Response 200 (Some (JArr events)) \<longrightarrow> JObj e \<in> set events
              \<longrightarrow> make_row e r = Inr w
              \<longrightarrow> stored (snd (poll_github_events feed repos db)) w))"
proof (intro conjI impI ballI allI)
  assume "fetch_failed result"
  then show "fetch_repo_events result repo db = (None, db)"
    by (rule fetch_failed_no_effect)
next
  assume a: "\<forall>r \<in> set repos. fetch_failed (feed r) \<or> fetch_succeeded r (feed r)"
  then show p: "poll_github_events feed repos db
                  = (None, insert_many (fetched_calls feed repos) db)"
    by (rule poll_cycle)
  fix r events e w
  assume r: "r \<in> set repos" and f: "feed r = Response 200 (Some (JArr events))"
    and e: "JObj e \<in> set events" and w: "make_row e r = Inr w"
  from e have "e \<in> set (events_of events)"
    by (force simp: events_of_def)
  with f have "(e, r) \<in> set (fetched_from r (feed r))"
    by (simp add: fetched_from_def)
  with r have "(e, r) \<in> set (fetched_calls feed repos)"
    by (auto simp: fetched_calls_def)
  then have "stored (insert_many (fetched_calls feed repos) db) w"
    using w by (rule stored_insert_many)
  then show "stored (snd (poll_github_events feed repos db)) w"
    by (simp add: p)
qed

theorem poll_survives_failed_fetch_witness:
  "fetch_failed (feed0 ''a/down'') \<and> fetch_failed (feed0 ''b/html'')
   \<and> fetch_succeeded ''o/r'' (feed0 ''o/r'')
   \<and> fetch_repo_events (feed0 ''a/down'') ''a/down'' [] = (None, [])
   \<and> poll_github_events feed0 repos0 []
       = (None, [Row (Some ''1'') ''o/r'' (Some ''PushEvent'') (Some ''2026-11-01T00:00:00Z'') (JObj push1),
                 Row None ''o/r'' (Some ''PushEvent'') (Some ''2026-11-01T00:00:00Z'') (JObj no_id)])
   \<and> stored (snd (poll_github_events feed0 repos0 []))
        (Row (Some ''1'') ''o/r'' (Some ''PushEvent'') (Some ''2026-11-01T00:00:00Z'') (JObj push1))"
proof -
  let ?w = "Row (Some ''1'') ''o/r'' (Some ''PushEvent'') (Some ''2026-11-01T00:00:00Z'') (JObj push1)"
  have f1: "fetch_failed (feed0 ''a/down'')" and f2: "fetch_failed (feed0 ''b/html'')"
    and f3: "fetch_succeeded ''o/r'' (feed0 ''o/r'')"
    by code_simp+
  then have h: "\<forall>r \<in> set repos0. fetch_failed (feed0 r) \<or> fetch_succeeded r (feed0 r)"
    by (simp add: repos0_def)
  have m: "''o/r'' \<in> set repos0" by (simp add: repos0_def)
  have g: "feed0 ''o/r'' = Response 200 (Some (JArr [JObj push1, JObj no_id]))"
    by (simp add: feed0_def)
  have e: "JObj push1 \<in> set [JObj push1, JObj no_id]" by simp
  have w: "make_row push1 ''o/r'' = Inr ?w"
    by (simp add: make_row_def dict_get_def push1_def feed_event_def)
  have c: "insert_many (fetched_calls feed0 repos0) []
       = [?w, Row None ''o/r'' (Some ''PushEvent'') (Some ''2026-11-01T00:00:00Z'') (JObj no_id)]"
    by code_simp
  note inst = poll_survives_failed_fetch [of "feed0 ''a/down''" "''a/down''" "[]" repos0 feed0]
  from inst f1 have c1: "fetch_repo_events (feed0 ''a/down'') ''a/down'' [] = (None, [])"
    by blast
  from inst h have c2: "poll_github_events feed0 repos0 []
      = (None, insert_many (fetched_calls feed0 repos0) [])" by blast
  from inst h m g e w have c3: "stored (snd (poll_github_events feed0 repos0 [])) ?w"
    by blast
  from f1 f2 f3 c1 c2 c3 show ?thesis by (simp add: c)
qed

end
